theory Spec2Isabelle
  imports Main "HOL-Library.Multiset"
begin

section \<open>Go values used by the gateway\<close>

text \<open>
  A Go \<^verbatim>\<open>error\<close> is either built with \<^verbatim>\<open>fmt.Errorf\<close> (by the gateway or by the
  version package) and then carries exactly its formatted message, or it is handed back by
  the standard library (net/http, io, os, encoding/json) and is opaque to the gateway.
\<close>

datatype error = Errorf string | Foreign string

text \<open>The fields the gateway attaches to a log entry, and the two log levels it uses.\<close>

datatype zap_field = ZString string string | ZStrings string "string list" | ZError error

datatype log_entry = LogDebug string "zap_field list" | LogError string "zap_field list"

text \<open>
  A function with the named results \<^verbatim>\<open>(x T, err error)\<close> returns both: \<open>ret\<close> is the
  first result (the zero value of \<open>T\<close> unless it was assigned), \<open>err\<close> the second
  (\<open>None\<close> is \<^verbatim>\<open>nil\<close>), \<open>logged\<close> what the call wrote to the logger.
\<close>

record 'a outcome =
  ret :: 'a
  err :: "error option"
  logged :: "log_entry list"

subsection \<open>strings and strconv\<close>

definition is_digit :: "char \<Rightarrow> bool" where
  "is_digit c = (c \<in> set ''0123456789'')"

definition is_letter :: "char \<Rightarrow> bool" where
  "is_letter c = (c \<in> set ''ABCDEFGHIJKLMNOPQRSTUVWXYZabcdefghijklmnopqrstuvwxyz'')"

text \<open>The class \<^verbatim>\<open>\s\<close> of Go regular expressions: tab, newline, form feed, carriage return, space.\<close>

definition is_space :: "char \<Rightarrow> bool" where
  "is_space c = (of_char c \<in> {9, 10, 12, 13, 32 :: nat})"

text \<open>\<^verbatim>\<open>strings.Split(s, sep)\<close> for a one-byte separator: always at least one piece.\<close>

fun strings_Split :: "string \<Rightarrow> char \<Rightarrow> string list" where
  "strings_Split [] sep = [] # []"
| "strings_Split (c # cs) sep =
     (if c = sep then [] # strings_Split cs sep
      else (case strings_Split cs sep of
              [] \<Rightarrow> [c] # []
            | p # ps \<Rightarrow> (c # p) # ps))"

fun strings_Join :: "string list \<Rightarrow> string \<Rightarrow> string" where
  "strings_Join [] sep = []"
| "strings_Join [p] sep = p"
| "strings_Join (p # q # ps) sep = p @ sep @ strings_Join (q # ps) sep"

definition digit_val :: "char \<Rightarrow> int" where
  "digit_val c = of_char c - 48"

definition digit_char :: "int \<Rightarrow> char" where
  "digit_char d = char_of (48 + d)"

fun decimal_value :: "string \<Rightarrow> int \<Rightarrow> int" where
  "decimal_value [] acc = acc"
| "decimal_value (c # cs) acc = decimal_value cs (10 * acc + digit_val c)"

function decimal_digits :: "int \<Rightarrow> string" where
  "decimal_digits n =
     (if n < 10 then [digit_char n] else decimal_digits (n div 10) @ [digit_char (n mod 10)])"
  by pat_completeness auto
termination
  by (relation "measure nat") auto

declare decimal_digits.simps [simp del]

datatype num_error = ErrSyntax | ErrRange

text \<open>
  \<^verbatim>\<open>strconv.ParseInt(s, 10, 64)\<close>: an optional sign, then one or more decimal digits; the
  value must fit a signed 64-bit integer. Both results are kept: with a syntax error the
  value is 0, with a range error it is the nearest bound of the 64-bit range.
\<close>

definition ParseInt :: "string \<Rightarrow> int \<times> num_error option" where
  "ParseInt s =
     (let neg = (s \<noteq> [] \<and> hd s = CHR ''-'');
          ds = (if s \<noteq> [] \<and> (hd s = CHR ''+'' \<or> hd s = CHR ''-'') then tl s else s)
      in if ds = [] \<or> \<not> list_all is_digit ds then (0, Some ErrSyntax)
         else (let n = decimal_value ds 0;
                   m = (if neg then - n else n)
               in if m < - (2 ^ 63) then (- (2 ^ 63), Some ErrRange)
                  else if 2 ^ 63 - 1 < m then (2 ^ 63 - 1, Some ErrRange)
                  else (m, None)))"

text \<open>\<^verbatim>\<open>strconv.FormatInt(i, 10)\<close>.\<close>

definition FormatInt :: "int \<Rightarrow> string" where
  "FormatInt i = (if i < 0 then CHR ''-'' # decimal_digits (- i) else decimal_digits i)"

text \<open>The message of the \<^verbatim>\<open>*strconv.NumError\<close> that ParseInt returns for the digit string \<open>s\<close>.\<close>

definition NumError_Error :: "string \<Rightarrow> num_error \<Rightarrow> string" where
  "NumError_Error s e =
     ''strconv.ParseInt: parsing '' @ [CHR 0x22] @ s @ [CHR 0x22] @ '': '' @
     (case e of ErrSyntax \<Rightarrow> ''invalid syntax'' | ErrRange \<Rightarrow> ''value out of range'')"

text \<open>Go compares strings byte by byte.\<close>

fun string_less :: "string \<Rightarrow> string \<Rightarrow> bool" where
  "string_less [] [] = False"
| "string_less [] (b # bs) = True"
| "string_less (a # as) [] = False"
| "string_less (a # as) (b # bs) =
     ((of_char a :: nat) < of_char b \<or> (a = b \<and> string_less as bs))"

section \<open>The version package (github.com/hashicorp/go-version)\<close>

text \<open>
  The gateway parses, orders, prints and matches versions with the imported package
  \<^verbatim>\<open>github.com/hashicorp/go-version\<close>, a dependency whose source is not part of the
  repository. The definitions of this section follow that package (\<^verbatim>\<open>version.go\<close>,
  \<^verbatim>\<open>constraint.go\<close>) function by function, under its names. Its \<^verbatim>\<open>Version\<close> keeps
  the numeric segments (padded with zeros to three), the number \<open>si\<close> of segments that
  were written, the pre-release and the build metadata.
\<close>

record Version =
  metadata :: string
  pre :: string
  segments :: "int list"
  si :: nat
  original :: string

text \<open>The classes \<^verbatim>\<open>[0-9A-Za-z\-~]\<close> and \<^verbatim>\<open>[A-Za-z\-~]\<close> of the version pattern.\<close>

definition is_idchar :: "char \<Rightarrow> bool" where
  "is_idchar c = (is_digit c \<or> is_letter c \<or> c = CHR ''-'' \<or> c = CHR ''~'')"

definition is_idstart :: "char \<Rightarrow> bool" where
  "is_idstart c = (is_letter c \<or> c = CHR ''-'' \<or> c = CHR ''~'')"

text \<open>\<^verbatim>\<open>[0-9A-Za-z\-~]+(\.[0-9A-Za-z\-~]+)*\<close> and \<^verbatim>\<open>[0-9]+(\.[0-9]+)*\<close>, on the whole string.\<close>

definition dotted_ids :: "string \<Rightarrow> bool" where
  "dotted_ids s = list_all (\<lambda>p. p \<noteq> [] \<and> list_all is_idchar p) (strings_Split s (CHR ''.''))"

definition dotted_nums :: "string \<Rightarrow> bool" where
  "dotted_nums s = list_all (\<lambda>p. p \<noteq> [] \<and> list_all is_digit p) (strings_Split s (CHR ''.''))"

text \<open>
  The anchored version pattern
  \<^verbatim>\<open>^v?([0-9]+(\.[0-9]+)*?)(-([0-9]+[0-9A-Za-z\-~]*(\.[0-9A-Za-z\-~]+)*)|(-?([A-Za-z\-~]+[0-9A-Za-z\-~]*(\.[0-9A-Za-z\-~]+)*)))?(\+([0-9A-Za-z\-~]+(\.[0-9A-Za-z\-~]+)*))??$\<close>
  as a recogniser that yields the submatches 1, 4, 7 and 10. The numeric part is the longest
  prefix of digits and dots (nothing else in the pattern can take a digit or a dot there),
  the build metadata starts at the first \<^verbatim>\<open>+\<close>, and what lies between is the pre-release,
  for which the first alternative (a dash, then a digit) is tried before the second.
\<close>

definition versionRegexp_match :: "string \<Rightarrow> (string \<times> string \<times> string \<times> string) option" where
  "versionRegexp_match s =
     (let s1 = (case s of [] \<Rightarrow> [] | c # r \<Rightarrow> if c = CHR ''v'' then r else s);
          num = takeWhile (\<lambda>c. is_digit c \<or> c = CHR ''.'') s1;
          rest = dropWhile (\<lambda>c. is_digit c \<or> c = CHR ''.'') s1;
          p = takeWhile (\<lambda>c. c \<noteq> CHR ''+'') rest;
          m = dropWhile (\<lambda>c. c \<noteq> CHR ''+'') rest
      in if \<not> dotted_nums num then None
         else if m \<noteq> [] \<and> \<not> dotted_ids (tl m) then None
         else (case p of
                 [] \<Rightarrow> Some (num, [], [], tl m)
               | c # q \<Rightarrow>
                   if c = CHR ''-'' \<and> q \<noteq> [] \<and> is_digit (hd q) \<and> dotted_ids q
                     then Some (num, q, [], tl m)
                   else if c = CHR ''-'' \<and> q \<noteq> [] \<and> is_idstart (hd q) \<and> dotted_ids q
                     then Some (num, [], q, tl m)
                   else if is_idstart c \<and> dotted_ids p
                     then Some (num, [], p, tl m)
                   else None))"

fun parseSegments :: "string list \<Rightarrow> error + int list" where
  "parseSegments [] = Inr []"
| "parseSegments (str # strs) =
     (case ParseInt str of
        (i, Some e) \<Rightarrow> Inl (Errorf (''Error parsing version: '' @ NumError_Error str e))
      | (i, None) \<Rightarrow> (case parseSegments strs of Inl e \<Rightarrow> Inl e | Inr is \<Rightarrow> Inr (i # is)))"

definition NewVersion :: "string \<Rightarrow> error + Version" where
  "NewVersion v =
     (case versionRegexp_match v of
        None \<Rightarrow> Inl (Errorf (''Malformed version: '' @ v))
      | Some (m1, m4, m7, m10) \<Rightarrow>
          (let segmentsStr = strings_Split m1 (CHR ''.'')
           in case parseSegments segmentsStr of
                Inl e \<Rightarrow> Inl e
              | Inr segs \<Rightarrow>
                  Inr \<lparr>metadata = m10,
                       pre = (if m7 = [] then m4 else m7),
                       segments = segs @ replicate (3 - length segs) 0,
                       si = length segmentsStr,
                       original = v\<rparr>))"

definition Version_String :: "Version \<Rightarrow> string" where
  "Version_String v =
     strings_Join (map FormatInt (segments v)) ''.'' @
     (if pre v \<noteq> [] then ''-'' @ pre v else []) @
     (if metadata v \<noteq> [] then ''+'' @ metadata v else [])"

definition comparePart :: "string \<Rightarrow> string \<Rightarrow> int" where
  "comparePart preSelf preOther =
     (if preSelf = preOther then 0
      else (let (selfInt, selfErr) = ParseInt preSelf;
                selfNumeric = (selfErr = None);
                (otherInt, otherErr) = ParseInt preOther;
                otherNumeric = (otherErr = None)
            in if preSelf = [] then (if otherNumeric then - 1 else 1)
               else if preOther = [] then (if selfNumeric then 1 else - 1)
               else if selfNumeric \<and> \<not> otherNumeric then - 1
               else if \<not> selfNumeric \<and> otherNumeric then 1
               else if \<not> selfNumeric \<and> \<not> otherNumeric \<and> string_less preOther preSelf then 1
               else if otherInt < selfInt then 1
               else - 1))"

fun comparePreParts :: "string list \<Rightarrow> string list \<Rightarrow> int" where
  "comparePreParts [] [] = 0"
| "comparePreParts (a # as) [] =
     (let c = comparePart a [] in if c \<noteq> 0 then c else comparePreParts as [])"
| "comparePreParts [] (b # bs) =
     (let c = comparePart [] b in if c \<noteq> 0 then c else comparePreParts [] bs)"
| "comparePreParts (a # as) (b # bs) =
     (let c = comparePart a b in if c \<noteq> 0 then c else comparePreParts as bs)"

definition comparePrereleases :: "string \<Rightarrow> string \<Rightarrow> int" where
  "comparePrereleases v other =
     (if v = other then 0
      else comparePreParts (strings_Split v (CHR ''.'')) (strings_Split other (CHR ''.'')))"

definition allZero :: "int list \<Rightarrow> bool" where
  "allZero segs = list_all (\<lambda>s. s = 0) segs"

text \<open>The loop of \<^verbatim>\<open>Compare\<close> over the two segment lists, which may differ in length.\<close>

fun compareSegments :: "int list \<Rightarrow> int list \<Rightarrow> int" where
  "compareSegments [] [] = 0"
| "compareSegments [] (r # rs) = (if \<not> allZero (r # rs) then - 1 else 0)"
| "compareSegments (l # ls) [] = (if \<not> allZero (l # ls) then 1 else 0)"
| "compareSegments (l # ls) (r # rs) =
     (if l = r then compareSegments ls rs else if l < r then - 1 else 1)"

definition Compare :: "Version \<Rightarrow> Version \<Rightarrow> int" where
  "Compare v other =
     (if Version_String v = Version_String other then 0
      else if segments v = segments other then
        (if pre v = [] \<and> pre other = [] then 0
         else if pre v = [] then 1
         else if pre other = [] then - 1
         else comparePrereleases (pre v) (pre other))
      else compareSegments (segments v) (segments other))"

definition LessThan :: "Version \<Rightarrow> Version \<Rightarrow> bool" where
  "LessThan v o' = (Compare v o' < 0)"

text \<open>
  \<^verbatim>\<open>Collection.Less(i, j)\<close> is \<^verbatim>\<open>v[i].LessThan(v[j])\<close>, and \<^verbatim>\<open>sort.Reverse\<close> swaps
  the arguments of the \<^verbatim>\<open>Less\<close> it wraps.
\<close>

definition Collection_Less :: "Version \<Rightarrow> Version \<Rightarrow> bool" where
  "Collection_Less v w = LessThan v w"

definition Reverse_Less :: "('a \<Rightarrow> 'a \<Rightarrow> bool) \<Rightarrow> 'a \<Rightarrow> 'a \<Rightarrow> bool" where
  "Reverse_Less lt a b = lt b a"


subsection \<open>Constraints\<close>

datatype constraint_op =
  OpEqual | OpNotEqual | OpGreaterThan | OpLessThan
  | OpGreaterThanEqual | OpLessThanEqual | OpPessimistic

record Constraint =
  f :: constraint_op
  check :: Version
  coriginal :: string

definition prereleaseCheck :: "Version \<Rightarrow> Version \<Rightarrow> bool" where
  "prereleaseCheck v c =
     (if pre c \<noteq> [] \<and> pre v \<noteq> [] then segments c = segments v
      else if pre c = [] \<and> pre v \<noteq> [] then False
      else True)"

definition constraintPessimistic :: "Version \<Rightarrow> Version \<Rightarrow> bool" where
  "constraintPessimistic v c =
     (if \<not> prereleaseCheck v c \<or> (pre c \<noteq> [] \<and> pre v = []) then False
      else if LessThan v c then False
      else (let cs = length (segments c)
            in if length (segments v) < cs then False
               else if \<exists>i \<in> set [0 ..< si c - 1]. segments v ! i \<noteq> segments c ! i then False
               else if segments v ! (cs - 1) < segments c ! (cs - 1) then False
               else True))"

definition Constraint_Check :: "Constraint \<Rightarrow> Version \<Rightarrow> bool" where
  "Constraint_Check c v =
     (case f c of
        OpEqual \<Rightarrow> Compare v (check c) = 0
      | OpNotEqual \<Rightarrow> Compare v (check c) \<noteq> 0
      | OpGreaterThan \<Rightarrow> prereleaseCheck v (check c) \<and> Compare v (check c) = 1
      | OpLessThan \<Rightarrow> prereleaseCheck v (check c) \<and> Compare v (check c) = - 1
      | OpGreaterThanEqual \<Rightarrow> prereleaseCheck v (check c) \<and> 0 \<le> Compare v (check c)
      | OpLessThanEqual \<Rightarrow> prereleaseCheck v (check c) \<and> Compare v (check c) \<le> 0
      | OpPessimistic \<Rightarrow> constraintPessimistic v (check c))"

text \<open>\<^verbatim>\<open>Constraints.Check\<close>: the version satisfies every constraint of the list.\<close>

definition Constraints_Check :: "Constraint list \<Rightarrow> Version \<Rightarrow> bool" where
  "Constraints_Check cs v = list_all (\<lambda>c. Constraint_Check c v) cs"

text \<open>
  The operator at the head of a constraint. The pattern is
  \<^verbatim>\<open>^\s*(=|!=|>|<|>=|<=|~>|)\s*(VERSION)\s*$\<close>; a version starts with a digit or \<^verbatim>\<open>v\<close>,
  so of two operators that both fit only the longer one can be followed by a version.
\<close>

definition split_operator :: "string \<Rightarrow> constraint_op \<times> string" where
  "split_operator s =
     (if take 2 s = ''~>'' then (OpPessimistic, drop 2 s)
      else if take 2 s = ''>='' then (OpGreaterThanEqual, drop 2 s)
      else if take 2 s = ''<='' then (OpLessThanEqual, drop 2 s)
      else if take 2 s = ''!='' then (OpNotEqual, drop 2 s)
      else if take 1 s = ''='' then (OpEqual, drop 1 s)
      else if take 1 s = ''>'' then (OpGreaterThan, drop 1 s)
      else if take 1 s = ''<'' then (OpLessThan, drop 1 s)
      else (OpEqual, s))"

definition constraintRegexp_match :: "string \<Rightarrow> (constraint_op \<times> string) option" where
  "constraintRegexp_match v =
     (let (op, r) = split_operator (dropWhile is_space v);
          ver = rev (dropWhile is_space (rev (dropWhile is_space r)))
      in if versionRegexp_match ver = None then None else Some (op, ver))"

definition parseSingle :: "string \<Rightarrow> error + Constraint" where
  "parseSingle v =
     (case constraintRegexp_match v of
        None \<Rightarrow> Inl (Errorf (''Malformed constraint: '' @ v))
      | Some (op, ver) \<Rightarrow>
          (case NewVersion ver of
             Inl e \<Rightarrow> Inl e
           | Inr c \<Rightarrow> Inr \<lparr>f = op, check = c, coriginal = v\<rparr>))"

fun parseConstraints :: "string list \<Rightarrow> error + Constraint list" where
  "parseConstraints [] = Inr []"
| "parseConstraints (single # vs) =
     (case parseSingle single of
        Inl e \<Rightarrow> Inl e
      | Inr c \<Rightarrow> (case parseConstraints vs of Inl e \<Rightarrow> Inl e | Inr cs \<Rightarrow> Inr (c # cs)))"

definition NewConstraint :: "string \<Rightarrow> error + Constraint list" where
  "NewConstraint v = parseConstraints (strings_Split v (CHR '',''))"

section \<open>The runtime the gateway calls into\<close>

text \<open>The fields of \<^verbatim>\<open>url.URL\<close>.\<close>

record URL =
  Scheme :: string
  Opaque :: string
  User :: "(string \<times> string option) option"
  Host :: string
  Path :: string
  RawPath :: string
  ForceQuery :: bool
  RawQuery :: string
  Fragment :: string
  RawFragment :: string

record Request =
  Method :: string
  ReqURL :: URL
  Header :: "(string \<times> string) list"

text \<open>
  A response as the transport delivers it: the status code, the bytes its body yields, and
  the error (if any) with which reading the body ends after those bytes.
\<close>

record Response =
  StatusCode :: int
  Body :: string
  BodyErr :: "error option"

text \<open>
  A file as \<^verbatim>\<open>ioutil.TempFile\<close> hands it out. \<open>WriteFailure = Some (k, e)\<close>: the device
  takes \<open>k\<close> more bytes and then fails with \<open>e\<close>.
\<close>

record File =
  Name :: string
  Contents :: string
  WriteFailure :: "(nat \<times> error) option"

record NpmDistInfo =
  Tarball :: string

record NpmVersionInfo =
  Dist :: NpmDistInfo

text \<open>
  \<open>Versions\<close> is a Go map. It is kept as the list of its entries in the order in which
  \<^verbatim>\<open>range\<close> visits them in the call at hand (the Go runtime picks that order); the keys
  of a map are distinct, and a lookup is \<open>map_of\<close>.
\<close>

record NpmPackageInfo =
  Versions :: "(string \<times> NpmVersionInfo) list"

text \<open>
  What the gateway calls outside its package and outside the version package: net/url,
  the HTTP client, encoding/json, sort and the temp-file store. \<open>sort_Sort rt lt xs\<close>
  is \<^verbatim>\<open>sort.Sort\<close> on a slice holding \<open>xs\<close> whose \<^verbatim>\<open>Less(i, j)\<close> is \<open>lt (xs ! i) (xs ! j)\<close>.
\<close>

record runtime =
  url_Parse :: "string \<Rightarrow> error + URL"
  url_String :: "URL \<Rightarrow> string"
  http_Do :: "Request \<Rightarrow> error + Response"
  json_Unmarshal :: "string \<Rightarrow> error + NpmPackageInfo"
  sort_Sort :: "(Version \<Rightarrow> Version \<Rightarrow> bool) \<Rightarrow> Version list \<Rightarrow> Version list"
  ioutil_TempFile :: "error + File"

text \<open>\<^verbatim>\<open>http.NewRequest(method, url, nil)\<close> for a valid method: parses the URL and drops an empty port.\<close>

definition removeEmptyPort :: "string \<Rightarrow> string" where
  "removeEmptyPort host = (if host \<noteq> [] \<and> last host = CHR '':'' then butlast host else host)"

definition http_NewRequest :: "runtime \<Rightarrow> string \<Rightarrow> string \<Rightarrow> error + Request" where
  "http_NewRequest rt method urlStr =
     (case url_Parse rt urlStr of
        Inl e \<Rightarrow> Inl e
      | Inr u \<Rightarrow> Inr \<lparr>Method = method, ReqURL = u\<lparr>Host := removeEmptyPort (Host u)\<rparr>, Header = []\<rparr>)"

text \<open>\<^verbatim>\<open>ioutil.ReadAll\<close> returns what it read together with the error that stopped it.\<close>

definition ioutil_ReadAll :: "Response \<Rightarrow> string \<times> error option" where
  "ioutil_ReadAll resp = (Body resp, BodyErr resp)"

text \<open>
  \<^verbatim>\<open>io.Copy(dst, src)\<close>: the bytes the body yields are appended to the file until the
  body ends, the body fails or the file refuses a write.
\<close>

definition io_Copy :: "File \<Rightarrow> Response \<Rightarrow> File \<times> error option" where
  "io_Copy dst resp =
     (case WriteFailure dst of
        None \<Rightarrow> (dst\<lparr>Contents := Contents dst @ Body resp\<rparr>, BodyErr resp)
      | Some (k, e) \<Rightarrow>
          if k < length (Body resp)
            then (dst\<lparr>Contents := Contents dst @ take k (Body resp), WriteFailure := Some (0, e)\<rparr>, Some e)
          else (dst\<lparr>Contents := Contents dst @ Body resp,
                    WriteFailure := Some (k - length (Body resp), e)\<rparr>, BodyErr resp))"

text \<open>
  Insertion sort as package sort runs it on a short slice: each element moves left while it
  is less than its left neighbour. \<open>insert_left\<close> is given the part that is already
  sorted from its right end on.
\<close>

fun insert_left :: "('a \<Rightarrow> 'a \<Rightarrow> bool) \<Rightarrow> 'a \<Rightarrow> 'a list \<Rightarrow> 'a list" where
  "insert_left lt x [] = [x]"
| "insert_left lt x (y # ys) = (if lt x y then y # insert_left lt x ys else x # y # ys)"

definition insertionSort :: "('a \<Rightarrow> 'a \<Rightarrow> bool) \<Rightarrow> 'a list \<Rightarrow> 'a list" where
  "insertionSort lt xs = rev (foldl (\<lambda>acc x. insert_left lt x acc) [] xs)"

section \<open>The gateway (go/gateway/npm.go)\<close>

record npmGateway =
  RegistryURL :: string
  Authorization :: string
  url :: URL

definition addAuthorizationToRequest :: "npmGateway \<Rightarrow> Request \<Rightarrow> Request" where
  "addAuthorizationToRequest n req =
     (let bearerAuth = ''Bearer '' @ Authorization n
      in req\<lparr>Header := Header req @ [(''Authorization'', bearerAuth)]\<rparr>)"

text \<open>
  \<open>None\<close> is a panic: the error of \<^verbatim>\<open>url.Parse\<close> is dropped, and on an error the URL is
  nil, so that the assignment to its \<^verbatim>\<open>Path\<close> dereferences nil.
\<close>

definition getPackageURL :: "runtime \<Rightarrow> npmGateway \<Rightarrow> string \<Rightarrow> URL option" where
  "getPackageURL rt n packageName =
     (case url_Parse rt (url_String rt (url n)) of
        Inl _ \<Rightarrow> None
      | Inr baseURL \<Rightarrow> Some (baseURL\<lparr>Path := packageName\<rparr>))"

text \<open>
  \<open>None\<close> is the panic on a registry URL that does not parse. The configuration is taken
  as the provider has populated it.
\<close>

definition NewNpmGateway :: "runtime \<Rightarrow> string \<Rightarrow> string \<Rightarrow> npmGateway option" where
  "NewNpmGateway rt registry_url authorization =
     (case url_Parse rt registry_url of
        Inl _ \<Rightarrow> None
      | Inr parsedUrl \<Rightarrow>
          Some \<lparr>RegistryURL = registry_url, Authorization = authorization,
                url = parsedUrl\<lparr>Scheme := ''https''\<rparr>\<rparr>)"

text \<open>The first loop of \<^verbatim>\<open>findPackageVersionTar\<close>: it returns at the first key that does not parse.\<close>

fun parseVersions :: "(string \<times> NpmVersionInfo) list \<Rightarrow> error + (string list \<times> Version list)" where
  "parseVersions [] = Inr ([], [])"
| "parseVersions ((npmPackageVersion, _) # rest) =
     (case NewVersion npmPackageVersion of
        Inl e \<Rightarrow> Inl e
      | Inr semverVersion \<Rightarrow>
          (case parseVersions rest of
             Inl e \<Rightarrow> Inl e
           | Inr (strVersions, versions) \<Rightarrow>
               Inr (npmPackageVersion # strVersions, semverVersion # versions)))"

text \<open>
  \<^verbatim>\<open>findPackageVersionTar\<close> from the decoded document on (the declarations of
  \<^verbatim>\<open>versions\<close> and \<^verbatim>\<open>strVersions\<close> to the end): the resolver.
\<close>

definition resolveVersionTar :: "runtime \<Rightarrow> NpmPackageInfo \<Rightarrow> string \<Rightarrow> string \<Rightarrow> string outcome" where
  "resolveVersionTar rt npmPackgeInfo name packageVersion =
     (case parseVersions (Versions npmPackgeInfo) of
        Inl e \<Rightarrow> \<lparr>ret = [], err = Some e, logged = []\<rparr>
      | Inr (strVersions, versions) \<Rightarrow>
          (let sorted = sort_Sort rt (Reverse_Less Collection_Less) versions
           in case NewConstraint (''~> '' @ packageVersion) of
                Inl e \<Rightarrow> \<lparr>ret = [], err = Some e, logged = []\<rparr>
              | Inr versionConstraints \<Rightarrow>
                  (let latestPackageVersion =
                         (case find (Constraints_Check versionConstraints) sorted of
                            None \<Rightarrow> []
                          | Some npmPackageVersion \<Rightarrow> Version_String npmPackageVersion)
                   in if latestPackageVersion = [] then
                        \<lparr>ret = [],
                         err = Some (Errorf (''unable to find acceptable version for provided: '' @
                                             packageVersion)),
                         logged = [LogError ''unable to find acceptable version''
                                     [ZString ''packageVersion'' packageVersion,
                                      ZStrings ''versions'' strVersions]]\<rparr>
                      else (case map_of (Versions npmPackgeInfo) latestPackageVersion of
                              None \<Rightarrow>
                                (let e = Errorf (''unable to location packageVersion '' @ packageVersion @
                                                 '' for package '' @ name)
                                 in \<lparr>ret = [], err = Some e, logged = [LogError [] [ZError e]]\<rparr>)
                            | Some packageVersionInfo \<Rightarrow>
                                \<lparr>ret = Tarball (Dist packageVersionInfo), err = None, logged = []\<rparr>))))"

text \<open>
  The request that \<^verbatim>\<open>findPackageVersionTar\<close> hands to the HTTP client. The outer
  \<open>None\<close> is the panic of \<open>getPackageURL\<close>.
\<close>

definition packageRequest :: "runtime \<Rightarrow> npmGateway \<Rightarrow> string \<Rightarrow> (error + Request) option" where
  "packageRequest rt n name =
     (case getPackageURL rt n name of
        None \<Rightarrow> None
      | Some packageURL \<Rightarrow>
          Some (case http_NewRequest rt ''GET'' (url_String rt packageURL) of
                  Inl e \<Rightarrow> Inl e
                | Inr req \<Rightarrow> Inr (addAuthorizationToRequest n req)))"

definition findPackageVersionTar ::
    "runtime \<Rightarrow> npmGateway \<Rightarrow> string \<Rightarrow> string \<Rightarrow> string outcome option" where
  "findPackageVersionTar rt n name packageVersion =
     (let dbg = LogDebug ''downloading package from npm''
                  [ZString ''name'' name, ZString ''packageVersion'' packageVersion];
          failed = (\<lambda>e. \<lparr>ret = [], err = Some e, logged = [dbg, LogError [] [ZError e]]\<rparr>)
      in case packageRequest rt n name of
           None \<Rightarrow> None
         | Some (Inl e) \<Rightarrow> Some (failed e)
         | Some (Inr req) \<Rightarrow>
             Some (case http_Do rt req of
                     Inl e \<Rightarrow> failed e
                   | Inr resp \<Rightarrow>
                       (case ioutil_ReadAll resp of
                          (body, Some e) \<Rightarrow> failed e
                        | (body, None) \<Rightarrow>
                            (case json_Unmarshal rt body of
                               Inl e \<Rightarrow> failed e
                             | Inr npmPackgeInfo \<Rightarrow>
                                 (let r = resolveVersionTar rt npmPackgeInfo name packageVersion
                                  in r\<lparr>logged := dbg # logged r\<rparr>)))))"

definition downloadPackageTar :: "runtime \<Rightarrow> npmGateway \<Rightarrow> string \<Rightarrow> File option outcome" where
  "downloadPackageTar rt n packageTarURL =
     (let failed = (\<lambda>e. \<lparr>ret = None, err = Some e, logged = [LogError [] [ZError e]]\<rparr>)
      in case http_NewRequest rt ''GET'' packageTarURL of
           Inl e \<Rightarrow> failed e
         | Inr req \<Rightarrow>
             (case http_Do rt (addAuthorizationToRequest n req) of
                Inl e \<Rightarrow> failed e
              | Inr resp \<Rightarrow>
                  (case ioutil_TempFile rt of
                     Inl e \<Rightarrow> failed e
                   | Inr packageTarFile \<Rightarrow>
                       (let (written, e) = io_Copy packageTarFile resp
                        in \<lparr>ret = Some written, err = e, logged = []\<rparr>))))"

definition DownloadPackage ::
    "runtime \<Rightarrow> npmGateway \<Rightarrow> string \<Rightarrow> string \<Rightarrow> File option outcome option" where
  "DownloadPackage rt n name version =
     (case findPackageVersionTar rt n name version of
        None \<Rightarrow> None
      | Some r \<Rightarrow>
          if err r \<noteq> None then Some \<lparr>ret = None, err = err r, logged = logged r\<rparr>
          else (let d = downloadPackageTar rt n (ret r)
                in Some (d\<lparr>logged := logged r @ logged d\<rparr>)))"

subsection \<open>A runtime to run the gateway on examples\<close>

text \<open>
  URLs of the shape \<^verbatim>\<open>scheme://host/path\<close>, printed and parsed as net/url does for this
  shape (a slash is put between a host and a path that does not start with one), a
  transport and a decoder given as tables, and insertion sort, which is what package sort
  runs on the short slices of the examples.
\<close>

definition example_url_String :: "URL \<Rightarrow> string" where
  "example_url_String u =
     Scheme u @ ''://'' @ Host u @
     (if Path u \<noteq> [] \<and> hd (Path u) \<noteq> CHR ''/'' then ''/'' else []) @ Path u"

definition example_url_Parse :: "string \<Rightarrow> error + URL" where
  "example_url_Parse s =
     (let scheme = takeWhile (\<lambda>c. c \<noteq> CHR '':'') s;
          rest = dropWhile (\<lambda>c. c \<noteq> CHR '':'') s
      in if scheme \<noteq> [] \<and> take 3 rest = ''://''
         then Inr \<lparr>Scheme = scheme, Opaque = [], User = None,
                   Host = takeWhile (\<lambda>c. c \<noteq> CHR ''/'') (drop 3 rest),
                   Path = dropWhile (\<lambda>c. c \<noteq> CHR ''/'') (drop 3 rest),
                   RawPath = [], ForceQuery = False, RawQuery = [], Fragment = [],
                   RawFragment = []\<rparr>
         else Inl (Foreign ''parse: missing protocol scheme''))"

definition example_runtime ::
    "(string \<times> Response) list \<Rightarrow> (string \<times> NpmPackageInfo) list \<Rightarrow> error + File \<Rightarrow> runtime" where
  "example_runtime responses documents tmp =
     \<lparr>url_Parse = example_url_Parse,
      url_String = example_url_String,
      http_Do = (\<lambda>req. case map_of responses (example_url_String (ReqURL req)) of
                        None \<Rightarrow> Inl (Foreign ''dial tcp: no such host'')
                      | Some resp \<Rightarrow> Inr resp),
      json_Unmarshal = (\<lambda>body. case map_of documents body of
                               None \<Rightarrow> Inl (Foreign ''invalid character'')
                             | Some d \<Rightarrow> Inr d),
      sort_Sort = insertionSort,
      ioutil_TempFile = tmp\<rparr>"

definition info :: "string \<Rightarrow> NpmVersionInfo" where
  "info tarball = \<lparr>Dist = \<lparr>Tarball = tarball\<rparr>\<rparr>"

section \<open>Notions used to state the properties\<close>

text \<open>
  A comparison \<open>lt\<close> is a strict weak ordering of the elements of \<open>xs\<close>: it is asymmetric,
  and "not less than" is transitive. This is what package sort asks of a \<^verbatim>\<open>Less\<close> method.
\<close>

definition strict_weak_order :: "('a \<Rightarrow> 'a \<Rightarrow> bool) \<Rightarrow> 'a list \<Rightarrow> bool" where
  "strict_weak_order lt xs =
     list_all (\<lambda>a. list_all (\<lambda>b. (lt a b \<longrightarrow> \<not> lt b a) \<and>
                 list_all (\<lambda>c. \<not> lt b a \<and> \<not> lt c b \<longrightarrow> \<not> lt c a) xs) xs) xs"

text \<open>
  What package sort promises. For every \<^verbatim>\<open>Less\<close> the slice is rearranged
  (\<open>sort_rearranges\<close>, stated for the call in the resolver); for a \<^verbatim>\<open>Less\<close> that is a
  strict weak ordering of the elements, afterwards no element is less than an earlier one
  (\<open>sort_orders\<close>). \<open>sort_descending\<close> says of one slice that the call in the resolver
  leaves it in descending order.
\<close>

definition sort_rearranges :: "runtime \<Rightarrow> Version list \<Rightarrow> bool" where
  "sort_rearranges rt xs = (mset (sort_Sort rt (Reverse_Less Collection_Less) xs) = mset xs)"



text \<open>Printing a URL and parsing it again gives the URL back.\<close>

definition url_roundtrips :: "runtime \<Rightarrow> URL \<Rightarrow> bool" where
  "url_roundtrips rt u = (url_Parse rt (url_String rt u) = Inr u)"

text \<open>The same world, except that every response carries the status code \<open>s\<close>.\<close>

definition with_status :: "int \<Rightarrow> runtime \<Rightarrow> runtime" where
  "with_status s rt =
     rt\<lparr>http_Do := (\<lambda>req. map_sum id (\<lambda>resp. resp\<lparr>StatusCode := s\<rparr>) (http_Do rt req))\<rparr>"

text \<open>\<^verbatim>\<open>strings.Contains\<close>, to say what a message includes.\<close>

fun has_prefix :: "string \<Rightarrow> string \<Rightarrow> bool" where
  "has_prefix s [] = True"
| "has_prefix [] (c # cs) = False"
| "has_prefix (a # as) (c # cs) = (a = c \<and> has_prefix as cs)"

fun strings_Contains :: "string \<Rightarrow> string \<Rightarrow> bool" where
  "strings_Contains [] sub = (sub = [])"
| "strings_Contains (a # as) sub = (has_prefix (a # as) sub \<or> strings_Contains as sub)"

subsection \<open>Example documents and gateways\<close>

definition mk_version :: "int list \<Rightarrow> nat \<Rightarrow> string \<Rightarrow> Version" where
  "mk_version segs n s = \<lparr>metadata = [], pre = [], segments = segs, si = n, original = s\<rparr>"


definition mk_pessimistic :: "Version \<Rightarrow> string \<Rightarrow> Constraint" where
  "mk_pessimistic c s = \<lparr>f = OpPessimistic, check = c, coriginal = s\<rparr>"

definition resolver_runtime :: runtime where
  "resolver_runtime = example_runtime [] [] (Inl (Foreign ''no temp dir''))"





definition old_document :: NpmPackageInfo where
  "old_document = \<lparr>Versions = [(''1.0.0'', info ''https://cdn.example.com/pkg-1.0.0.tgz'')]\<rparr>"





definition mixed_document :: NpmPackageInfo where
  "mixed_document =
     \<lparr>Versions = [(''1.2.3'', info ''https://cdn.example.com/pkg-1.2.3.tgz''),
                  (''not-a-version'', info ''https://cdn.example.com/pkg-x.tgz'')]\<rparr>"

definition short_document :: NpmPackageInfo where
  "short_document = \<lparr>Versions = [(''1.2'', info ''https://cdn.example.com/pkg-1.2.tgz'')]\<rparr>"

definition both_spellings_document :: NpmPackageInfo where
  "both_spellings_document =
     \<lparr>Versions = [(''1.2'', info ''https://cdn.example.com/pkg-1.2.tgz''),
                  (''1.2.0'', info ''https://cdn.example.com/pkg-1.2.0.tgz'')]\<rparr>"

definition registry_base :: URL where
  "registry_base =
     \<lparr>Scheme = ''http'', Opaque = [], User = None, Host = ''registry.example.com'',
      Path = ''/npm'', RawPath = [], ForceQuery = False, RawQuery = [], Fragment = [],
      RawFragment = []\<rparr>"

definition path_gateway :: npmGateway where
  "path_gateway =
     \<lparr>RegistryURL = ''http://registry.example.com/npm'', Authorization = ''token'',
      url = registry_base\<lparr>Scheme := ''https''\<rparr>\<rparr>"

definition path_request :: Request where
  "path_request =
     \<lparr>Method = ''GET'',
      ReqURL = registry_base\<lparr>Scheme := ''https'', Path := ''/lodash''\<rparr>,
      Header = [(''Authorization'', ''Bearer token'')]\<rparr>"

definition plain_gateway :: npmGateway where
  "plain_gateway =
     \<lparr>RegistryURL = ''https://registry.example.com'', Authorization = ''token'',
      url = registry_base\<lparr>Scheme := ''https'', Path := []\<rparr>\<rparr>"

definition fresh_file :: File where
  "fresh_file = \<lparr>Name = ''/tmp/123456.tar'', Contents = [], WriteFailure = None\<rparr>"

text \<open>
  A world in which the registry answers for \<^verbatim>\<open>pkg\<close> with the document \<open>old_document\<close>
  and the body of the archive breaks off after seven bytes.
\<close>

definition broken_body_runtime :: runtime where
  "broken_body_runtime =
     example_runtime
       [(''https://registry.example.com/pkg'',
           \<lparr>StatusCode = 200, Body = ''{versions}'', BodyErr = None\<rparr>),
        (''https://cdn.example.com/pkg-1.0.0.tgz'',
           \<lparr>StatusCode = 200, Body = ''partial'', BodyErr = Some (Foreign ''unexpected EOF'')\<rparr>)]
       [(''{versions}'', old_document)]
       (Inr fresh_file)"

text \<open>A world in which the archive location answers 404 with a short body.\<close>

definition not_found_runtime :: runtime where
  "not_found_runtime =
     example_runtime
       [(''https://cdn.example.com/pkg-1.0.0.tgz'',
           \<lparr>StatusCode = 404, Body = ''Not Found'', BodyErr = None\<rparr>)]
       []
       (Inr fresh_file)"

text \<open>The same world, but the temporary file cannot be created.\<close>

definition no_temp_runtime :: runtime where
  "no_temp_runtime =
     example_runtime
       [(''https://cdn.example.com/pkg-1.0.0.tgz'',
           \<lparr>StatusCode = 404, Body = ''Not Found'', BodyErr = None\<rparr>)]
       []
       (Inl (Foreign ''open /tmp/123456.tar: no space left on device''))"

text \<open>
  A world in which the archive location answers 500 and the body of the answer breaks off
  after eight bytes.
\<close>

definition server_error_runtime :: runtime where
  "server_error_runtime =
     example_runtime
       [(''https://cdn.example.com/pkg-1.0.0.tgz'',
           \<lparr>StatusCode = 500, Body = ''Internal'', BodyErr = Some (Foreign ''unexpected EOF'')\<rparr>)]
       []
       (Inr fresh_file)"

definition archive_request :: Request where
  "archive_request =
     \<lparr>Method = ''GET'',
      ReqURL = \<lparr>Scheme = ''https'', Opaque = [], User = None, Host = ''cdn.example.com'',
                Path = ''/pkg-1.0.0.tgz'', RawPath = [], ForceQuery = False, RawQuery = [],
                Fragment = [], RawFragment = []\<rparr>,
      Header = [(''Authorization'', ''Bearer token'')]\<rparr>"

section \<open>Properties of the version package and of the first loop\<close>

lemma strings_Split_not_Nil: "strings_Split s sep \<noteq> []"
  by (induction s) (auto split: list.splits)

lemma hd_strings_Split: "hd (strings_Split s sep) = takeWhile (\<lambda>c. c \<noteq> sep) s"
  by (induction s) (auto split: list.splits simp: strings_Split_not_Nil)

lemma strings_Split_no_sep: "sep \<notin> set p \<Longrightarrow> strings_Split p sep = [p]"
  by (induction p) auto

lemma strings_Split_append:
  "sep \<notin> set p \<Longrightarrow> strings_Split (p @ sep # rest) sep = p # strings_Split rest sep"
  by (induction p) auto

lemma strings_Split_Join:
  "ps \<noteq> [] \<Longrightarrow> \<forall>p \<in> set ps. sep \<notin> set p \<Longrightarrow> strings_Split (strings_Join ps [sep]) sep = ps"
proof (induction ps "[sep]" rule: strings_Join.induct)
  case 1
  then show ?case by simp
next
  case (2 p)
  then show ?case by (simp add: strings_Split_no_sep)
next
  case (3 p q ps)
  then show ?case by (simp add: strings_Split_append)
qed

lemma strings_Split_covers:
  "c \<in> set s \<Longrightarrow> c \<noteq> sep \<Longrightarrow> \<exists>p \<in> set (strings_Split s sep). c \<in> set p"
  by (induction s) (auto split: list.splits)

lemma set_strings_Join: "set (strings_Join ps sep) \<subseteq> (\<Union>p \<in> set ps. set p) \<union> set sep"
  by (induction ps sep rule: strings_Join.induct) auto

lemma hd_strings_Join: "ps \<noteq> [] \<Longrightarrow> hd ps \<noteq> [] \<Longrightarrow> hd (strings_Join ps sep) = hd (hd ps)"
  by (induction ps sep rule: strings_Join.induct) auto

lemma strings_Join_not_Nil: "ps \<noteq> [] \<Longrightarrow> hd ps \<noteq> [] \<Longrightarrow> strings_Join ps sep \<noteq> []"
  by (induction ps sep rule: strings_Join.induct) auto

lemma takeWhile_stop:
  assumes "\<forall>c \<in> set xs. P c" and "ys = [] \<or> \<not> P (hd ys)"
  shows "takeWhile P (xs @ ys) = xs" and "dropWhile P (xs @ ys) = ys"
proof -
  from assms(2) have "takeWhile P ys = []" "dropWhile P ys = ys" by (cases ys; auto)+
  with assms(1) show "takeWhile P (xs @ ys) = xs" "dropWhile P (xs @ ys) = ys"
    by (simp_all add: takeWhile_append2 dropWhile_append2)
qed

lemma parseVersions_keys:
  "parseVersions xs = Inr (strs, vs) \<Longrightarrow> strs = map fst xs"
  by (induction xs arbitrary: strs vs) (auto split: sum.splits prod.splits)

lemma parseVersions_all2:
  "parseVersions xs = Inr (strs, vs) \<Longrightarrow> list_all2 (\<lambda>x v. NewVersion (fst x) = Inr v) xs vs"
proof (induction xs arbitrary: strs vs)
  case Nil
  then show ?case by simp
next
  case (Cons x xs)
  obtain k i where x: "x = (k, i)" by (cases x)
  from Cons.prems x obtain v strs' vs' where
    "NewVersion k = Inr v" "parseVersions xs = Inr (strs', vs')" "vs = v # vs'"
    by (auto split: sum.splits prod.splits)
  with Cons.IH [of strs' vs'] x show ?case by simp
qed

lemma parseVersions_member:
  assumes "parseVersions xs = Inr (strs, vs)" and "v \<in> set vs"
  shows "\<exists>k i. (k, i) \<in> set xs \<and> NewVersion k = Inr v"
proof -
  from assms(2) obtain j where j: "j < length vs" "vs ! j = v"
    by (auto simp: in_set_conv_nth)
  from parseVersions_all2 [OF assms(1)] j
  have "j < length xs" "NewVersion (fst (xs ! j)) = Inr v"
    by (auto simp: list_all2_conv_all_nth)
  then have "(fst (xs ! j), snd (xs ! j)) \<in> set xs \<and> NewVersion (fst (xs ! j)) = Inr v"
    by simp
  then show ?thesis by blast
qed


lemma parseVersions_malformed:
  "(k, i) \<in> set xs \<Longrightarrow> NewVersion k = Inl e0 \<Longrightarrow>
   \<exists>e k' i'. parseVersions xs = Inl e \<and> (k', i') \<in> set xs \<and> NewVersion k' = Inl e"
proof (induction xs)
  case Nil
  then show ?case by simp
next
  case (Cons x xs)
  obtain k0 i0 where x: "x = (k0, i0)" by (cases x)
  show ?case
  proof (cases "NewVersion k0")
    case (Inl e)
    then show ?thesis using x by auto
  next
    case (Inr v)
    with Cons.prems x have "(k, i) \<in> set xs" by auto
    from Cons.IH [OF this Cons.prems(2)] obtain e k' i' where
      "parseVersions xs = Inl e" "(k', i') \<in> set xs" "NewVersion k' = Inl e" by blast
    then show ?thesis using x Inr by auto
  qed
qed


lemma digit_not_sign: "is_digit c \<Longrightarrow> c \<noteq> CHR ''+'' \<and> c \<noteq> CHR ''-'' \<and> c \<noteq> CHR ''.'' \<and> c \<noteq> CHR ''v''"
  by (auto simp: is_digit_def)

lemma digit_char_is_digit: "0 \<le> d \<Longrightarrow> d < 10 \<Longrightarrow> is_digit (digit_char d)"
proof -
  assume "0 \<le> d" "d < 10"
  then have "d = 0 \<or> d = 1 \<or> d = 2 \<or> d = 3 \<or> d = 4 \<or> d = 5 \<or> d = 6 \<or> d = 7 \<or> d = 8 \<or> d = 9"
    by arith
  moreover have "is_digit (digit_char 0)" "is_digit (digit_char 1)" "is_digit (digit_char 2)"
    "is_digit (digit_char 3)" "is_digit (digit_char 4)" "is_digit (digit_char 5)"
    "is_digit (digit_char 6)" "is_digit (digit_char 7)" "is_digit (digit_char 8)"
    "is_digit (digit_char 9)"
    by code_simp+
  ultimately show ?thesis by auto
qed

lemma digit_val_digit_char: "0 \<le> d \<Longrightarrow> d < 10 \<Longrightarrow> digit_val (digit_char d) = d"
  by (simp add: digit_val_def digit_char_def of_char_of)

lemma digit_val_nonneg: "is_digit c \<Longrightarrow> 0 \<le> digit_val c"
  by (auto simp: is_digit_def digit_val_def)

lemma decimal_digits_not_Nil: "decimal_digits n \<noteq> []"
  by (subst decimal_digits.simps) simp

lemma decimal_digits_all_digits: "0 \<le> n \<Longrightarrow> list_all is_digit (decimal_digits n)"
proof (induction n rule: decimal_digits.induct)
  case (1 n)
  show ?case
  proof (cases "n < 10")
    case True
    with 1 show ?thesis
      by (subst decimal_digits.simps) (simp add: digit_char_is_digit)
  next
    case False
    with 1 have "list_all is_digit (decimal_digits (n div 10))" by simp
    moreover have "is_digit (digit_char (n mod 10))"
      by (rule digit_char_is_digit) simp_all
    ultimately show ?thesis using False
      by (subst decimal_digits.simps) simp
  qed
qed

lemma decimal_value_append:
  "decimal_value (xs @ ys) acc = decimal_value ys (decimal_value xs acc)"
  by (induction xs arbitrary: acc) auto

lemma decimal_value_digits: "0 \<le> n \<Longrightarrow> decimal_value (decimal_digits n) 0 = n"
proof (induction n rule: decimal_digits.induct)
  case (1 n)
  show ?case
  proof (cases "n < 10")
    case True
    with 1 show ?thesis
      by (subst decimal_digits.simps) (simp add: digit_val_digit_char)
  next
    case False
    with 1 have "decimal_value (decimal_digits (n div 10)) 0 = n div 10" by simp
    moreover have "digit_val (digit_char (n mod 10)) = n mod 10"
      by (rule digit_val_digit_char) simp_all
    ultimately show ?thesis using False
      by (subst decimal_digits.simps) (simp add: decimal_value_append)
  qed
qed

lemma decimal_value_nonneg:
  "0 \<le> acc \<Longrightarrow> list_all is_digit ds \<Longrightarrow> 0 \<le> decimal_value ds acc"
  by (induction ds arbitrary: acc) (auto simp: digit_val_nonneg)

lemma FormatInt_not_Nil: "FormatInt i \<noteq> []"
  by (simp add: FormatInt_def decimal_digits_not_Nil)

lemma FormatInt_digits: "0 \<le> i \<Longrightarrow> FormatInt i \<noteq> [] \<and> list_all is_digit (FormatInt i)"
  by (simp add: FormatInt_def decimal_digits_not_Nil decimal_digits_all_digits)

lemma ParseInt_FormatInt:
  assumes "0 \<le> i" and "i < 2 ^ 63"
  shows "ParseInt (FormatInt i) = (i, None)"
proof -
  let ?ds = "decimal_digits i"
  have ne: "?ds \<noteq> []" by (rule decimal_digits_not_Nil)
  have dig: "list_all is_digit ?ds" using assms(1) by (rule decimal_digits_all_digits)
  with ne have "is_digit (hd ?ds)" by (cases ?ds) auto
  then have "hd ?ds \<noteq> CHR ''+''" "hd ?ds \<noteq> CHR ''-''" using digit_not_sign by blast+
  with ne dig assms show ?thesis
    by (simp add: ParseInt_def FormatInt_def Let_def decimal_value_digits)
qed

lemma ParseInt_range:
  assumes "ParseInt s = (i, None)" and "list_all is_digit s"
  shows "0 \<le> i \<and> i < 2 ^ 63"
proof -
  from assms(1) have ne: "s \<noteq> []"
    by (auto simp: ParseInt_def Let_def split: if_splits)
  with assms(2) have "is_digit (hd s)" by (cases s) auto
  then have nosign: "hd s \<noteq> CHR ''+''" "hd s \<noteq> CHR ''-''" using digit_not_sign by blast+
  with assms ne have i: "i = decimal_value s 0" and up: "\<not> 2 ^ 63 - 1 < i"
    by (auto simp: ParseInt_def Let_def split: if_splits)
  from i assms(2) have "0 \<le> i" by (simp add: decimal_value_nonneg)
  with up show ?thesis by simp
qed

lemma parseSegments_range:
  "parseSegments strs = Inr segs \<Longrightarrow> \<forall>p \<in> set strs. list_all is_digit p \<Longrightarrow>
   length segs = length strs \<and> (\<forall>s \<in> set segs. 0 \<le> s \<and> s < 2 ^ 63)"
proof (induction strs arbitrary: segs)
  case Nil
  then show ?case by simp
next
  case (Cons str strs)
  from Cons.prems(1) obtain i is' where
    i: "ParseInt str = (i, None)" and rest: "parseSegments strs = Inr is'" and segs: "segs = i # is'"
    by (auto split: sum.splits prod.splits option.splits)
  from i Cons.prems(2) have "0 \<le> i \<and> i < 2 ^ 63" by (intro ParseInt_range) auto
  moreover from Cons.IH [OF rest] Cons.prems(2)
  have "length is' = length strs \<and> (\<forall>s \<in> set is'. 0 \<le> s \<and> s < 2 ^ 63)" by simp
  ultimately show ?case using segs by simp
qed

lemma parseSegments_FormatInt:
  "\<forall>s \<in> set segs. 0 \<le> s \<and> s < 2 ^ 63 \<Longrightarrow> parseSegments (map FormatInt segs) = Inr segs"
  by (induction segs) (auto simp: ParseInt_FormatInt)

lemma dotted_parts:
  assumes "list_all (\<lambda>p. p \<noteq> [] \<and> list_all Q p) (strings_Split s sep)"
  shows "s \<noteq> [] \<and> Q (hd s) \<and> (\<forall>c \<in> set s. Q c \<or> c = sep)"
proof -
  from assms have all: "\<forall>p \<in> set (strings_Split s sep). p \<noteq> [] \<and> (\<forall>c \<in> set p. Q c)"
    by (simp add: list_all_iff)
  have "hd (strings_Split s sep) \<in> set (strings_Split s sep)"
    by (simp add: strings_Split_not_Nil)
  with all have first: "takeWhile (\<lambda>c. c \<noteq> sep) s \<noteq> []"
    "\<forall>c \<in> set (takeWhile (\<lambda>c. c \<noteq> sep) s). Q c"
    by (auto simp: hd_strings_Split)
  then have ne: "s \<noteq> []" by auto
  with first have "Q (hd s)"
    by (cases s) (auto split: if_splits)
  moreover have "\<forall>c \<in> set s. Q c \<or> c = sep"
    using all strings_Split_covers by fastforce
  ultimately show ?thesis using ne by simp
qed

lemma dotted_ids_chars:
  "dotted_ids s \<Longrightarrow> s \<noteq> [] \<and> is_idchar (hd s) \<and> (\<forall>c \<in> set s. is_idchar c \<or> c = CHR ''.'')"
  unfolding dotted_ids_def by (rule dotted_parts)

lemma idchar_not_plus: "is_idchar c \<Longrightarrow> c \<noteq> CHR ''+''"
  by (auto simp: is_idchar_def is_digit_def is_letter_def)

lemma idchar_cases: "is_idchar c \<Longrightarrow> is_digit c \<or> is_idstart c"
  by (auto simp: is_idchar_def is_idstart_def)

lemma versionRegexp_match_fields:
  assumes "versionRegexp_match s = Some (m1, m4, m7, m10)"
  shows "dotted_nums m1 \<and> (m4 = [] \<or> dotted_ids m4) \<and> (m7 = [] \<or> dotted_ids m7) \<and>
         (m10 = [] \<or> dotted_ids m10)"
proof -
  define s1 where "s1 = (case s of [] \<Rightarrow> [] | c # r \<Rightarrow> if c = CHR ''v'' then r else s)"
  define rest where "rest = dropWhile (\<lambda>c. is_digit c \<or> c = CHR ''.'') s1"
  define m where "m = dropWhile (\<lambda>c. c \<noteq> CHR ''+'') rest"
  define p where "p = takeWhile (\<lambda>c. c \<noteq> CHR ''+'') rest"
  from assms have nums: "dotted_nums (takeWhile (\<lambda>c. is_digit c \<or> c = CHR ''.'') s1)"
    and meta: "m = [] \<or> dotted_ids (tl m)"
    and fields: "(case p of
                 [] \<Rightarrow> Some (takeWhile (\<lambda>c. is_digit c \<or> c = CHR ''.'') s1, [], [], tl m)
               | c # q \<Rightarrow>
                   if c = CHR ''-'' \<and> q \<noteq> [] \<and> is_digit (hd q) \<and> dotted_ids q
                     then Some (takeWhile (\<lambda>c. is_digit c \<or> c = CHR ''.'') s1, q, [], tl m)
                   else if c = CHR ''-'' \<and> q \<noteq> [] \<and> is_idstart (hd q) \<and> dotted_ids q
                     then Some (takeWhile (\<lambda>c. is_digit c \<or> c = CHR ''.'') s1, [], q, tl m)
                   else if is_idstart c \<and> dotted_ids p
                     then Some (takeWhile (\<lambda>c. is_digit c \<or> c = CHR ''.'') s1, [], p, tl m)
                   else None) = Some (m1, m4, m7, m10)"
    unfolding versionRegexp_match_def s1_def rest_def m_def p_def Let_def
    by (auto split: if_splits)
  from fields have "m1 = takeWhile (\<lambda>c. is_digit c \<or> c = CHR ''.'') s1" and "m10 = tl m"
    and "m4 = [] \<or> dotted_ids m4" and "m7 = [] \<or> dotted_ids m7"
    by (auto split: list.splits if_splits)
  with nums meta show ?thesis by auto
qed

lemma NewVersion_fields:
  assumes "NewVersion k = Inr v"
  shows "3 \<le> length (segments v) \<and> (\<forall>s \<in> set (segments v). 0 \<le> s \<and> s < 2 ^ 63) \<and>
         (pre v = [] \<or> dotted_ids (pre v)) \<and> (metadata v = [] \<or> dotted_ids (metadata v))"
proof -
  from assms obtain m1 m4 m7 m10 segs where
    m: "versionRegexp_match k = Some (m1, m4, m7, m10)"
    and segs: "parseSegments (strings_Split m1 (CHR ''.'')) = Inr segs"
    and v: "v = \<lparr>metadata = m10, pre = (if m7 = [] then m4 else m7),
                 segments = segs @ replicate (3 - length segs) 0,
                 si = length (strings_Split m1 (CHR ''.'')), original = k\<rparr>"
    by (auto simp: NewVersion_def Let_def split: option.splits sum.splits prod.splits)
  from versionRegexp_match_fields [OF m] have
    f: "dotted_nums m1" "m4 = [] \<or> dotted_ids m4" "m7 = [] \<or> dotted_ids m7"
       "m10 = [] \<or> dotted_ids m10"
    by auto
  from f(1) have "\<forall>p \<in> set (strings_Split m1 (CHR ''.'')). list_all is_digit p"
    by (simp add: dotted_nums_def list_all_iff)
  with segs have "\<forall>s \<in> set segs. 0 \<le> s \<and> s < 2 ^ 63"
    using parseSegments_range by blast
  with v f show ?thesis by auto
qed

lemma NewVersion_segments_length: "NewVersion k = Inr v \<Longrightarrow> 3 \<le> length (segments v)"
  by (auto simp: NewVersion_def Let_def split: option.splits sum.splits prod.splits)

lemma Version_String_not_Nil:
  assumes "segments v \<noteq> []"
  shows "Version_String v \<noteq> []"
proof -
  have "strings_Join (map FormatInt (segments v)) ''.'' \<noteq> []"
    using assms by (intro strings_Join_not_Nil) (auto simp: FormatInt_not_Nil hd_map)
  then show ?thesis by (simp add: Version_String_def)
qed

lemma NewVersion_String_not_Nil: "NewVersion k = Inr v \<Longrightarrow> Version_String v \<noteq> []"
  using NewVersion_segments_length [of k v] by (intro Version_String_not_Nil) auto

text \<open>
  Printing a parsed version and parsing the print gives the version back; only the count
  of written segments and the original text are those of the print.
\<close>

lemma versionRegexp_match_String:
  assumes len: "3 \<le> length (segments v)"
    and rng: "\<forall>s \<in> set (segments v). 0 \<le> s \<and> s < 2 ^ 63"
    and pr: "pre v = [] \<or> dotted_ids (pre v)"
    and me: "metadata v = [] \<or> dotted_ids (metadata v)"
  shows "versionRegexp_match (Version_String v) =
           Some (strings_Join (map FormatInt (segments v)) ''.'',
                 (if pre v \<noteq> [] \<and> is_digit (hd (pre v)) then pre v else []),
                 (if pre v \<noteq> [] \<and> \<not> is_digit (hd (pre v)) then pre v else []),
                 metadata v)"
proof -
  let ?parts = "map FormatInt (segments v)"
  let ?N = "strings_Join ?parts ''.''"
  let ?P = "if pre v \<noteq> [] then ''-'' @ pre v else []"
  let ?M = "if metadata v \<noteq> [] then ''+'' @ metadata v else []"
  let ?nd = "\<lambda>c. is_digit c \<or> c = CHR ''.''"
  have S: "Version_String v = ?N @ (?P @ ?M)" by (simp add: Version_String_def)
  have parts: "?parts \<noteq> []" "\<forall>p \<in> set ?parts. p \<noteq> [] \<and> list_all is_digit p"
    using len rng by (auto simp: FormatInt_digits)
  then have hdp: "hd ?parts \<noteq> []" "is_digit (hd (hd ?parts))"
    by (cases ?parts; cases "hd ?parts"; auto)+
  have N_ne: "?N \<noteq> []" using parts(1) hdp(1) by (rule strings_Join_not_Nil)
  have N_hd: "is_digit (hd ?N)" using parts(1) hdp by (simp add: hd_strings_Join)
  have N_chars: "\<forall>c \<in> set ?N. ?nd c"
    using set_strings_Join [of ?parts "''.''"] parts(2) by (auto simp: list_all_iff)
  have nodot: "\<forall>p \<in> set ?parts. CHR ''.'' \<notin> set p"
    using parts(2) digit_not_sign by (auto simp: list_all_iff)
  have split: "strings_Split ?N (CHR ''.'') = ?parts"
    using strings_Split_Join [OF parts(1) nodot] by simp
  have nums: "dotted_nums ?N"
    using parts(2) by (simp add: dotted_nums_def split list_all_iff)
  have stop: "?P @ ?M = [] \<or> \<not> ?nd (hd (?P @ ?M))"
    using digit_not_sign by auto
  have s1: "(case Version_String v of [] \<Rightarrow> [] | c # r \<Rightarrow> if c = CHR ''v'' then r else Version_String v) =
      ?N @ (?P @ ?M)"
    using N_ne N_hd digit_not_sign unfolding S by (cases ?N) auto
  have tw: "takeWhile ?nd (?N @ (?P @ ?M)) = ?N" "dropWhile ?nd (?N @ (?P @ ?M)) = ?P @ ?M"
    using takeWhile_stop [OF N_chars stop] by blast+
  have P_chars: "\<forall>c \<in> set ?P. c \<noteq> CHR ''+''"
    using pr dotted_ids_chars [of "pre v"] idchar_not_plus by auto
  have Mstop: "?M = [] \<or> \<not> (hd ?M \<noteq> CHR ''+'')" by simp
  have tw2: "takeWhile (\<lambda>c. c \<noteq> CHR ''+'') (?P @ ?M) = ?P" "dropWhile (\<lambda>c. c \<noteq> CHR ''+'') (?P @ ?M) = ?M"
    using takeWhile_stop [OF P_chars Mstop] by blast+
  have meta: "?M \<noteq> [] \<longrightarrow> dotted_ids (tl ?M)" "tl ?M = metadata v"
    using me by auto
  show ?thesis
  proof (cases "pre v = []")
    case True
    then show ?thesis
      unfolding versionRegexp_match_def s1 Let_def tw tw2
      using nums meta by simp
  next
    case False
    with pr have d: "dotted_ids (pre v)" by simp
    then have "is_idchar (hd (pre v))" using dotted_ids_chars by blast
    then have "is_digit (hd (pre v)) \<or> is_idstart (hd (pre v))" by (rule idchar_cases)
    with False d show ?thesis
      unfolding versionRegexp_match_def s1 Let_def tw tw2
      using nums meta by auto
  qed
qed

lemma NewVersion_String_roundtrip:
  assumes "NewVersion k = Inr v"
  shows "NewVersion (Version_String v) =
           Inr (v\<lparr>si := length (segments v), original := Version_String v\<rparr>)"
proof -
  from NewVersion_fields [OF assms] have
    len: "3 \<le> length (segments v)"
    and rng: "\<forall>s \<in> set (segments v). 0 \<le> s \<and> s < 2 ^ 63"
    and pr: "pre v = [] \<or> dotted_ids (pre v)"
    and me: "metadata v = [] \<or> dotted_ids (metadata v)"
    by auto
  let ?parts = "map FormatInt (segments v)"
  have parts: "?parts \<noteq> []" "\<forall>p \<in> set ?parts. CHR ''.'' \<notin> set p"
    using len rng FormatInt_digits digit_not_sign by (auto simp: list_all_iff)
  have split: "strings_Split (strings_Join ?parts ''.'') (CHR ''.'') = ?parts"
    using strings_Split_Join [OF parts] by simp
  have segs: "parseSegments ?parts = Inr (segments v)"
    using rng by (rule parseSegments_FormatInt)
  show ?thesis
    unfolding NewVersion_def versionRegexp_match_String [OF len rng pr me]
    using len by (simp add: split segs)
qed


lemma Compare_ignores_origin [simp]:
  "Compare (v\<lparr>si := n, original := s\<rparr>) c = Compare v c"
  "Compare c (v\<lparr>si := n, original := s\<rparr>) = Compare c v"
  by (simp_all add: Compare_def Version_String_def)








subsection \<open>Sorting and the walk over the sorted candidates\<close>

lemma mset_insert_left: "mset (insert_left lt x ys) = add_mset x (mset ys)"
  by (induction ys) auto

lemma mset_foldl_insert_left:
  "mset (foldl (\<lambda>acc x. insert_left lt x acc) acc xs) = mset acc + mset xs"
  by (induction xs arbitrary: acc) (auto simp: mset_insert_left)

lemma mset_insertionSort: "mset (insertionSort lt xs) = mset xs"
  by (simp add: insertionSort_def mset_foldl_insert_left)

lemma example_runtime_rearranges: "sort_rearranges (example_runtime rs ds tmp) xs"
  by (simp add: sort_rearranges_def example_runtime_def mset_insertionSort)

lemma sorted_members:
  assumes "sort_rearranges rt versions"
  shows "set (sort_Sort rt (Reverse_Less Collection_Less) versions) = set versions"
  using assms by (metis sort_rearranges_def set_mset_mset)



text \<open>Insertion sort keeps the promise of package sort for a strict weak ordering.\<close>

lemma strict_weak_order_iff:
  "strict_weak_order lt xs \<longleftrightarrow>
     (\<forall>a \<in> set xs. \<forall>b \<in> set xs. (lt a b \<longrightarrow> \<not> lt b a) \<and>
        (\<forall>c \<in> set xs. \<not> lt b a \<and> \<not> lt c b \<longrightarrow> \<not> lt c a))"
  by (simp add: strict_weak_order_def list_all_iff)









text \<open>
  On versions without a pre-release the comparison of the version package is a strict weak
  ordering: it compares the segments, a shorter list counting as padded with zeros.
\<close>

lemma compareSegments_antisym: "compareSegments b a = - compareSegments a b"
  by (induction a b rule: compareSegments.induct) auto

lemma compareSegments_refl: "compareSegments a a = 0"
  by (induction a) auto

lemma compareSegments_zero_left:
  "allZero b \<Longrightarrow> \<forall>x \<in> set c. 0 \<le> x \<Longrightarrow> 0 \<le> compareSegments b c \<Longrightarrow> allZero c"
proof (induction b c rule: compareSegments.induct)
  case 1
  then show ?case by simp
next
  case (2 r rs)
  then show ?case by (simp split: if_splits)
next
  case (3 l ls)
  then show ?case by (simp add: allZero_def)
next
  case (4 l ls r rs)
  then show ?case by (auto simp: allZero_def split: if_splits)
qed

lemma compareSegments_zero_right:
  "allZero c \<Longrightarrow> \<forall>x \<in> set a. 0 \<le> x \<Longrightarrow> 0 \<le> compareSegments a c"
proof (induction a c rule: compareSegments.induct)
  case (4 l ls r rs)
  then show ?case by (auto simp: allZero_def)
qed (auto simp: allZero_def)

lemma compareSegments_trans:
  assumes "\<forall>x \<in> set a. 0 \<le> x" and "\<forall>x \<in> set c. 0 \<le> x"
    and "0 \<le> compareSegments a b" and "0 \<le> compareSegments b c"
  shows "0 \<le> compareSegments a c"
  using assms
proof (induction a arbitrary: b c)
  case Nil
  then have "allZero b" by (cases b) (auto simp: allZero_def split: if_splits)
  with Nil have "allZero c" using compareSegments_zero_left by blast
  then show ?case by (cases c) auto
next
  case (Cons l ls)
  show ?case
  proof (cases b)
    case Nil
    with Cons.prems have "allZero c" by (cases c) (auto simp: allZero_def split: if_splits)
    then show ?thesis using Cons.prems(1) by (rule compareSegments_zero_right)
  next
    case b: (Cons m ms)
    show ?thesis
    proof (cases c)
      case Nil
      then show ?thesis by simp
    next
      case c: (Cons n ns)
      from Cons.prems(3) b have lm: "m \<le> l" "l = m \<longrightarrow> 0 \<le> compareSegments ls ms"
        by (auto split: if_splits)
      from Cons.prems(4) b c have mn: "n \<le> m" "m = n \<longrightarrow> 0 \<le> compareSegments ms ns"
        by (auto split: if_splits)
      show ?thesis
      proof (cases "l = n")
        case True
        with lm mn have "l = m" "m = n" by auto
        with lm mn have "0 \<le> compareSegments ls ms" "0 \<le> compareSegments ms ns" by auto
        with Cons.IH [of ns ms] Cons.prems(1,2) c have "0 \<le> compareSegments ls ns" by simp
        with True c show ?thesis by simp
      next
        case False
        with lm mn have "n < l" by auto
        with c show ?thesis by simp
      qed
    qed
  qed
qed

lemma Version_String_inj:
  assumes "NewVersion k = Inr v" and "NewVersion k' = Inr w"
    and "Version_String v = Version_String w"
  shows "segments v = segments w"
proof -
  from NewVersion_String_roundtrip [OF assms(1)] NewVersion_String_roundtrip [OF assms(2)] assms(3)
  have "v\<lparr>si := length (segments v), original := Version_String v\<rparr> =
        w\<lparr>si := length (segments w), original := Version_String w\<rparr>"
    by simp
  then have "segments (v\<lparr>si := length (segments v), original := Version_String v\<rparr>) =
        segments (w\<lparr>si := length (segments w), original := Version_String w\<rparr>)"
    by (rule arg_cong)
  then show ?thesis by simp
qed

lemma Compare_release:
  assumes "NewVersion k = Inr v" and "NewVersion k' = Inr w"
    and "pre v = []" and "pre w = []"
  shows "Compare v w = compareSegments (segments v) (segments w)"
proof (cases "Version_String v = Version_String w")
  case True
  with assms have "segments v = segments w" using Version_String_inj by blast
  with True show ?thesis by (simp add: Compare_def compareSegments_refl)
next
  case False
  with assms(3,4) show ?thesis by (simp add: Compare_def compareSegments_refl)
qed

lemma release_versions_ordered:
  assumes parsed: "\<forall>v \<in> set vs. \<exists>k. NewVersion k = Inr v"
    and release: "\<forall>v \<in> set vs. pre v = []"
  shows "strict_weak_order LessThan vs"
  unfolding strict_weak_order_iff
proof (intro ballI conjI impI)
  fix a b assume a: "a \<in> set vs" and b: "b \<in> set vs" and lt: "LessThan a b"
  from a b parsed release have "Compare a b = compareSegments (segments a) (segments b)"
    "Compare b a = compareSegments (segments b) (segments a)"
    using Compare_release by blast+
  with lt show "\<not> LessThan b a"
    using compareSegments_antisym [of "segments b" "segments a"] by (simp add: LessThan_def)
next
  fix a b c assume a: "a \<in> set vs" and b: "b \<in> set vs" and c: "c \<in> set vs"
    and le: "\<not> LessThan b a \<and> \<not> LessThan c b"
  from a b c parsed release have cmp:
    "Compare b a = compareSegments (segments b) (segments a)"
    "Compare c b = compareSegments (segments c) (segments b)"
    "Compare c a = compareSegments (segments c) (segments a)"
    using Compare_release by blast+
  from a c parsed have nn: "\<forall>x \<in> set (segments a). 0 \<le> x" "\<forall>x \<in> set (segments c). 0 \<le> x"
    using NewVersion_fields by blast+
  from le cmp have "0 \<le> compareSegments (segments c) (segments b)"
    "0 \<le> compareSegments (segments b) (segments a)"
    by (simp_all add: LessThan_def)
  with nn have "0 \<le> compareSegments (segments c) (segments a)"
    using compareSegments_trans by blast
  with cmp show "\<not> LessThan c a" by (simp add: LessThan_def)
qed

lemma release_document_ordered:
  assumes "parseVersions (Versions d) = Inr (strVersions, versions)"
    and "\<forall>v \<in> set versions. pre v = []"
  shows "strict_weak_order LessThan versions"
proof (rule release_versions_ordered)
  show "\<forall>v \<in> set versions. \<exists>k. NewVersion k = Inr v"
    using assms(1) parseVersions_member by blast
  show "\<forall>v \<in> set versions. pre v = []" by (rule assms(2))
qed

lemma resolve_found:
  assumes wf: "parseVersions (Versions d) = Inr (strVersions, versions)"
    and perm: "sort_rearranges rt versions"
    and con: "NewConstraint (''~> '' @ packageVersion) = Inr cs"
    and found: "find (Constraints_Check cs) (sort_Sort rt (Reverse_Less Collection_Less) versions) = Some v"
  shows "resolveVersionTar rt d name packageVersion =
     (case map_of (Versions d) (Version_String v) of
        None \<Rightarrow>
          \<lparr>ret = [],
           err = Some (Errorf (''unable to location packageVersion '' @ packageVersion @
                               '' for package '' @ name)),
           logged = [LogError [] [ZError (Errorf (''unable to location packageVersion '' @
                               packageVersion @ '' for package '' @ name))]]\<rparr>
      | Some i \<Rightarrow> \<lparr>ret = Tarball (Dist i), err = None, logged = []\<rparr>)"
proof -
  from found have "v \<in> set (sort_Sort rt (Reverse_Less Collection_Less) versions)"
    by (auto simp: find_Some_iff)
  with perm have "v \<in> set versions" by (simp add: sorted_members)
  with wf obtain k i where "NewVersion k = Inr v"
    using parseVersions_member by blast
  then have "Version_String v \<noteq> []" by (rule NewVersion_String_not_Nil)
  with wf con found show ?thesis
    by (simp add: resolveVersionTar_def Let_def split: option.splits)
qed

lemma resolve_not_found:
  assumes wf: "parseVersions (Versions d) = Inr (strVersions, versions)"
    and con: "NewConstraint (''~> '' @ packageVersion) = Inr cs"
    and found: "find (Constraints_Check cs) (sort_Sort rt (Reverse_Less Collection_Less) versions) = None"
  shows "resolveVersionTar rt d name packageVersion =
          \<lparr>ret = [],
           err = Some (Errorf (''unable to find acceptable version for provided: '' @ packageVersion)),
           logged = [LogError ''unable to find acceptable version''
                       [ZString ''packageVersion'' packageVersion,
                        ZStrings ''versions'' (map fst (Versions d))]]\<rparr>"
  using assms parseVersions_keys [OF wf] by (simp add: resolveVersionTar_def Let_def)

text \<open>
  Once the document has been fetched and decoded, \<open>findPackageVersionTar\<close> is the
  resolver on that document; only the debug line is put in front of what it logs.
\<close>

lemma findPackageVersionTar_resolves:
  assumes "packageRequest rt n name = Some (Inr req)"
    and "http_Do rt req = Inr resp"
    and "BodyErr resp = None"
    and "json_Unmarshal rt (Body resp) = Inr d"
  shows "\<exists>r. findPackageVersionTar rt n name packageVersion = Some r \<and>
           ret r = ret (resolveVersionTar rt d name packageVersion) \<and>
           err r = err (resolveVersionTar rt d name packageVersion)"
  using assms by (simp add: findPackageVersionTar_def ioutil_ReadAll_def Let_def)

subsection \<open>The examples, evaluated\<close>

lemma resolver_runtime_rearranges: "sort_rearranges resolver_runtime xs"
  unfolding resolver_runtime_def by (rule example_runtime_rearranges)











section \<open>The resolver\<close>






text \<open>
  Claim C4 (amended). For a document whose keys all parse and a constraint that compiles,
  when no version satisfies the constraint the resolver returns no location and the error
  \<^verbatim>\<open>unable to find acceptable version for provided:\<close> followed by the requested
  constraint string; the list of the raw version strings that were considered is written,
  together with that constraint string, to the error line of the log, not into the error.
\<close>

theorem resolve_reports_no_match:
  assumes wf: "parseVersions (Versions d) = Inr (strVersions, versions)"
    and perm: "sort_rearranges rt versions"
    and con: "NewConstraint (''~> '' @ packageVersion) = Inr cs"
    and unsat: "\<forall>w \<in> set versions. \<not> Constraints_Check cs w"
  shows "resolveVersionTar rt d name packageVersion =
          \<lparr>ret = [],
           err = Some (Errorf (''unable to find acceptable version for provided: '' @ packageVersion)),
           logged = [LogError ''unable to find acceptable version''
                       [ZString ''packageVersion'' packageVersion,
                        ZStrings ''versions'' (map fst (Versions d))]]\<rparr>"
proof -
  have "find (Constraints_Check cs) (sort_Sort rt (Reverse_Less Collection_Less) versions) = None"
    using unsat sorted_members [OF perm] by (auto simp: find_None_iff)
  with wf con show ?thesis by (rule resolve_not_found)
qed

lemma old_parse:
  "parseVersions (Versions old_document) = Inr ([''1.0.0''], [mk_version [1, 0, 0] 3 ''1.0.0''])"
  by code_simp

lemma constraint_200:
  "NewConstraint (''~> '' @ ''2.0.0'') =
     Inr [mk_pessimistic (mk_version [2, 0, 0] 3 ''2.0.0'') ''~> 2.0.0'']"
  by code_simp

lemma old_unsatisfied:
  "\<not> Constraints_Check [mk_pessimistic (mk_version [2, 0, 0] 3 ''2.0.0'') ''~> 2.0.0'']
       (mk_version [1, 0, 0] 3 ''1.0.0'')"
  by code_simp

theorem resolve_reports_no_match_witness:
  "resolveVersionTar resolver_runtime old_document ''pkg'' ''2.0.0'' =
     \<lparr>ret = [],
      err = Some (Errorf ''unable to find acceptable version for provided: 2.0.0''),
      logged = [LogError ''unable to find acceptable version''
                  [ZString ''packageVersion'' ''2.0.0'', ZStrings ''versions'' [''1.0.0'']]]\<rparr>"
proof -
  have unsat: "\<forall>w \<in> set [mk_version [1, 0, 0] 3 ''1.0.0''].
      \<not> Constraints_Check [mk_pessimistic (mk_version [2, 0, 0] 3 ''2.0.0'') ''~> 2.0.0''] w"
    using old_unsatisfied by simp
  from resolve_reports_no_match
    [OF old_parse resolver_runtime_rearranges constraint_200 unsat, of "''pkg''"]
  show ?thesis by (simp add: old_document_def)
qed

theorem resolve_reports_no_match_counterexample:
  "err (resolveVersionTar resolver_runtime old_document ''pkg'' ''2.0.0'') =
     Some (Errorf ''unable to find acceptable version for provided: 2.0.0'') \<and>
   \<not> strings_Contains ''unable to find acceptable version for provided: 2.0.0'' ''1.0.0''"
  by (intro conjI; code_simp)







text \<open>
  Claim C6. If some key of the document does not parse as a version, the resolver returns
  no location and the parse error of a key of the document, whatever the other keys and
  the constraint are: no key that fails to parse is skipped.
\<close>

theorem resolve_aborts_on_malformed_key:
  assumes "(k, i) \<in> set (Versions d)" and "NewVersion k = Inl e0"
  shows "\<exists>e k' i'. (k', i') \<in> set (Versions d) \<and> NewVersion k' = Inl e \<and>
           resolveVersionTar rt d name packageVersion = \<lparr>ret = [], err = Some e, logged = []\<rparr>"
proof -
  from parseVersions_malformed [OF assms] obtain e k' i' where
    "parseVersions (Versions d) = Inl e" "(k', i') \<in> set (Versions d)" "NewVersion k' = Inl e"
    by blast
  then show ?thesis by (auto simp: resolveVersionTar_def)
qed

theorem resolve_aborts_on_malformed_key_witness:
  "\<exists>e k' i'. (k', i') \<in> set (Versions mixed_document) \<and> NewVersion k' = Inl e \<and>
      resolveVersionTar resolver_runtime mixed_document ''pkg'' ''1.2.3'' =
        \<lparr>ret = [], err = Some e, logged = []\<rparr>"
proof -
  have mem: "(''not-a-version'', info ''https://cdn.example.com/pkg-x.tgz'') \<in>
      set (Versions mixed_document)"
    by (simp add: mixed_document_def)
  have bad: "NewVersion ''not-a-version'' = Inl (Errorf ''Malformed version: not-a-version'')"
    by code_simp
  from resolve_aborts_on_malformed_key [OF mem bad] show ?thesis .
qed

text \<open>
  Claim C7 (amended). If the document lists no version and the constraint string compiles,
  the resolver fails with \<^verbatim>\<open>unable to find acceptable version for provided:\<close> and the
  constraint string. (A constraint string that does not compile yields the error of the
  constraint parser instead.)
\<close>

theorem resolve_empty_document:
  assumes "Versions d = []"
    and "sort_rearranges rt []"
    and "NewConstraint (''~> '' @ packageVersion) = Inr cs"
  shows "err (resolveVersionTar rt d name packageVersion) =
           Some (Errorf (''unable to find acceptable version for provided: '' @ packageVersion))"
proof -
  have wf: "parseVersions (Versions d) = Inr ([], [])" using assms(1) by simp
  have "\<forall>w \<in> set []. \<not> Constraints_Check cs w" by simp
  from resolve_not_found [OF wf assms(3), of rt name] sorted_members [OF assms(2)]
  show ?thesis by simp
qed

theorem resolve_empty_document_witness:
  "err (resolveVersionTar resolver_runtime \<lparr>Versions = []\<rparr> ''pkg'' ''2.0.0'') =
     Some (Errorf ''unable to find acceptable version for provided: 2.0.0'')"
proof -
  have "Versions \<lparr>Versions = []\<rparr> = []" by simp
  from resolve_empty_document [OF this resolver_runtime_rearranges constraint_200, of "''pkg''"]
  show ?thesis by simp
qed

theorem resolve_empty_document_counterexample:
  "resolveVersionTar resolver_runtime \<lparr>Versions = []\<rparr> ''pkg'' ''abc'' =
     \<lparr>ret = [], err = Some (Errorf ''Malformed constraint: ~> abc''), logged = []\<rparr> \<and>
   Errorf ''Malformed constraint: ~> abc'' \<noteq>
     Errorf (''unable to find acceptable version for provided: '' @ ''abc'')"
  by (intro conjI; code_simp)

text \<open>
  Claim C9 (amended). If the printed (canonical) form of the best-matching version, the
  first candidate in sorted order that satisfies the constraint, is not a key of the
  document, the resolver returns no location and the error
  \<^verbatim>\<open>unable to location packageVersion\<close>: the lookup uses the printed form of the parsed
  version, not the key it was parsed from.
\<close>

theorem resolve_fails_on_missing_canonical_key:
  assumes wf: "parseVersions (Versions d) = Inr (strVersions, versions)"
    and perm: "sort_rearranges rt versions"
    and con: "NewConstraint (''~> '' @ packageVersion) = Inr cs"
    and found: "find (Constraints_Check cs) (sort_Sort rt (Reverse_Less Collection_Less) versions) = Some v"
    and missing: "map_of (Versions d) (Version_String v) = None"
  shows "ret (resolveVersionTar rt d name packageVersion) = [] \<and>
         err (resolveVersionTar rt d name packageVersion) =
           Some (Errorf (''unable to location packageVersion '' @ packageVersion @
                         '' for package '' @ name))"
  using resolve_found [OF wf perm con found, of name] missing by simp

lemma short_parse:
  "parseVersions (Versions short_document) = Inr ([''1.2''], [mk_version [1, 2, 0] 2 ''1.2''])"
  by code_simp

lemma constraint_120:
  "NewConstraint (''~> '' @ ''1.2.0'') =
     Inr [mk_pessimistic (mk_version [1, 2, 0] 3 ''1.2.0'') ''~> 1.2.0'']"
  by code_simp

theorem resolve_fails_on_missing_canonical_key_witness:
  "ret (resolveVersionTar resolver_runtime short_document ''pkg'' ''1.2.0'') = [] \<and>
   err (resolveVersionTar resolver_runtime short_document ''pkg'' ''1.2.0'') =
     Some (Errorf ''unable to location packageVersion 1.2.0 for package pkg'')"
proof -
  have found: "find (Constraints_Check [mk_pessimistic (mk_version [1, 2, 0] 3 ''1.2.0'') ''~> 1.2.0''])
      (sort_Sort resolver_runtime (Reverse_Less Collection_Less) [mk_version [1, 2, 0] 2 ''1.2'']) =
      Some (mk_version [1, 2, 0] 2 ''1.2'')"
    by code_simp
  have missing: "map_of (Versions short_document) (Version_String (mk_version [1, 2, 0] 2 ''1.2'')) = None"
    by code_simp
  from resolve_fails_on_missing_canonical_key
    [OF short_parse resolver_runtime_rearranges constraint_120 found missing, of "''pkg''"]
  show ?thesis by simp
qed

theorem resolve_noncanonical_key_counterexample:
  "parseVersions (Versions both_spellings_document) =
     Inr ([''1.2'', ''1.2.0''], [mk_version [1, 2, 0] 2 ''1.2'', mk_version [1, 2, 0] 3 ''1.2.0'']) \<and>
   find (Constraints_Check [mk_pessimistic (mk_version [1, 2, 0] 3 ''1.2.0'') ''~> 1.2.0''])
      (sort_Sort resolver_runtime (Reverse_Less Collection_Less)
         [mk_version [1, 2, 0] 2 ''1.2'', mk_version [1, 2, 0] 3 ''1.2.0'']) =
      Some (mk_version [1, 2, 0] 2 ''1.2'') \<and>
   Version_String (mk_version [1, 2, 0] 2 ''1.2'') = ''1.2.0'' \<and>
   resolveVersionTar resolver_runtime both_spellings_document ''pkg'' ''1.2.0'' =
     \<lparr>ret = ''https://cdn.example.com/pkg-1.2.0.tgz'', err = None, logged = []\<rparr>"
  by (intro conjI; code_simp)

section \<open>The requests\<close>

text \<open>
  Claim C8 (amended). For a registry URL that parses, the gateway is built with the scheme
  of the parsed URL set to \<^verbatim>\<open>https\<close>. The metadata request is built from that URL printed
  and parsed again, with the path of the result replaced by the package name (the call
  panics if the print does not parse): a path that the registry URL has is dropped, not
  extended. Where printing and parsing gives the URL back, the request goes to the
  registry URL with the scheme \<^verbatim>\<open>https\<close> and the package name as its path.
\<close>

theorem package_request_replaces_path:
  assumes "url_Parse rt registry_url = Inr base"
  shows "\<exists>n. NewNpmGateway rt registry_url authorization = Some n \<and>
           url n = base\<lparr>Scheme := ''https''\<rparr> \<and>
           getPackageURL rt n packageName =
             (case url_Parse rt (url_String rt (base\<lparr>Scheme := ''https''\<rparr>)) of
                Inl e \<Rightarrow> None
              | Inr u \<Rightarrow> Some (u\<lparr>Path := packageName\<rparr>)) \<and>
           packageRequest rt n packageName =
             (case url_Parse rt (url_String rt (base\<lparr>Scheme := ''https''\<rparr>)) of
                Inl e \<Rightarrow> None
              | Inr u \<Rightarrow>
                  Some (map_sum id (addAuthorizationToRequest n)
                         (http_NewRequest rt ''GET'' (url_String rt (u\<lparr>Path := packageName\<rparr>))))) \<and>
           (url_roundtrips rt (base\<lparr>Scheme := ''https''\<rparr>) \<longrightarrow>
              getPackageURL rt n packageName =
                Some (base\<lparr>Scheme := ''https'', Path := packageName\<rparr>))"
  using assms
  by (auto simp: NewNpmGateway_def getPackageURL_def packageRequest_def url_roundtrips_def
      split: sum.splits)

lemma registry_base_parse:
  "url_Parse resolver_runtime ''http://registry.example.com/npm'' = Inr registry_base"
  by code_simp

lemma registry_base_roundtrips:
  "url_roundtrips resolver_runtime (registry_base\<lparr>Scheme := ''https''\<rparr>)"
  by code_simp

theorem package_request_replaces_path_witness:
  "\<exists>n. NewNpmGateway resolver_runtime ''http://registry.example.com/npm'' ''token'' = Some n \<and>
      url n = registry_base\<lparr>Scheme := ''https''\<rparr> \<and>
      getPackageURL resolver_runtime n ''lodash'' =
        Some (registry_base\<lparr>Scheme := ''https'', Path := ''lodash''\<rparr>)"
  using package_request_replaces_path [OF registry_base_parse, of "''token''" "''lodash''"]
    registry_base_roundtrips
  by auto

theorem package_request_path_counterexample:
  "NewNpmGateway resolver_runtime ''http://registry.example.com/npm'' ''token'' = Some path_gateway \<and>
   packageRequest resolver_runtime path_gateway ''lodash'' = Some (Inr path_request) \<and>
   example_url_String (ReqURL path_request) = ''https://registry.example.com/lodash'' \<and>
   example_url_String (ReqURL path_request) \<noteq> ''https://registry.example.com/npm/lodash''"
  by (intro conjI; code_simp)

section \<open>The download\<close>

text \<open>
  A file is handed back together with an error only on the last path of
  \<open>downloadPackageTar\<close>, the copy; on every earlier failure the file is nil.
\<close>

lemma download_file_with_error_only_from_copy:
  assumes "ret (downloadPackageTar rt n packageTarURL) \<noteq> None"
    and "err (downloadPackageTar rt n packageTarURL) \<noteq> None"
  shows "\<exists>req resp tmp. http_NewRequest rt ''GET'' packageTarURL = Inr req \<and>
           http_Do rt (addAuthorizationToRequest n req) = Inr resp \<and>
           ioutil_TempFile rt = Inr tmp \<and>
           err (downloadPackageTar rt n packageTarURL) = snd (io_Copy tmp resp)"
  using assms
  by (auto simp: downloadPackageTar_def Let_def split: sum.splits prod.splits)

lemma DownloadPackage_resolve_failure_without_file:
  assumes "findPackageVersionTar rt n name version = Some r" and "err r \<noteq> None"
  shows "DownloadPackage rt n name version = Some \<lparr>ret = None, err = err r, logged = logged r\<rparr>"
  using assms by (simp add: DownloadPackage_def)

text \<open>
  Claim C3. \<open>downloadPackageTar\<close> should hand back no file when it fails. Here the body of
  the archive response breaks off while it is copied: the call returns the error together
  with the temporary file that holds the bytes copied so far, and \<open>DownloadPackage\<close>
  passes both on to its caller.
\<close>

theorem copy_failure_returns_file_with_error:
  "downloadPackageTar broken_body_runtime plain_gateway ''https://cdn.example.com/pkg-1.0.0.tgz'' =
     \<lparr>ret = Some (fresh_file\<lparr>Contents := ''partial''\<rparr>),
      err = Some (Foreign ''unexpected EOF''), logged = []\<rparr> \<and>
   map_option ret (DownloadPackage broken_body_runtime plain_gateway ''pkg'' ''1.0.0'') =
     Some (Some (fresh_file\<lparr>Contents := ''partial''\<rparr>)) \<and>
   map_option err (DownloadPackage broken_body_runtime plain_gateway ''pkg'' ''1.0.0'') =
     Some (Some (Foreign ''unexpected EOF''))"
  by (intro conjI; code_simp)

lemma io_Copy_ignores_status: "io_Copy dst (resp\<lparr>StatusCode := s\<rparr>) = io_Copy dst resp"
  by (simp add: io_Copy_def split: option.splits)

lemma download_status_independent:
  "downloadPackageTar (with_status s rt) n packageTarURL = downloadPackageTar rt n packageTarURL"
proof (cases "http_NewRequest rt ''GET'' packageTarURL")
  case (Inl e)
  then show ?thesis
    by (simp add: downloadPackageTar_def with_status_def http_NewRequest_def split: sum.splits)
next
  case (Inr req)
  then have req: "http_NewRequest (with_status s rt) ''GET'' packageTarURL = Inr req"
    by (simp add: with_status_def http_NewRequest_def split: sum.splits)
  show ?thesis
  proof (cases "http_Do rt (addAuthorizationToRequest n req)")
    case (Inl e)
    with Inr req show ?thesis
      by (simp add: downloadPackageTar_def with_status_def)
  next
    case second: (Inr resp)
    with Inr req show ?thesis
      by (simp add: downloadPackageTar_def with_status_def io_Copy_ignores_status
          split: sum.splits)
  qed
qed

text \<open>
  Claim C10 (amended). \<open>downloadPackageTar\<close> does not look at the status of the response: for every
  response that the transport delivers, whatever its status code, if the temporary file
  can be created and the body is copied without a read or write error, the call succeeds
  and the file holds the body as it was sent; and the call returns the same when the
  status code of the response is replaced by any other.
\<close>

theorem download_ignores_status:
  assumes "http_NewRequest rt ''GET'' packageTarURL = Inr req"
    and "http_Do rt (addAuthorizationToRequest n req) = Inr resp"
    and "BodyErr resp = None"
    and "ioutil_TempFile rt = Inr tmp"
    and "WriteFailure tmp = None"
  shows "downloadPackageTar rt n packageTarURL =
           \<lparr>ret = Some (tmp\<lparr>Contents := Contents tmp @ Body resp\<rparr>), err = None, logged = []\<rparr> \<and>
         downloadPackageTar (with_status s rt) n packageTarURL =
           downloadPackageTar rt n packageTarURL"
proof
  show "downloadPackageTar rt n packageTarURL =
      \<lparr>ret = Some (tmp\<lparr>Contents := Contents tmp @ Body resp\<rparr>), err = None, logged = []\<rparr>"
    using assms by (simp add: downloadPackageTar_def io_Copy_def)
  show "downloadPackageTar (with_status s rt) n packageTarURL =
      downloadPackageTar rt n packageTarURL"
    by (rule download_status_independent)
qed

theorem download_ignores_status_witness:
  "downloadPackageTar not_found_runtime plain_gateway ''https://cdn.example.com/pkg-1.0.0.tgz'' =
     \<lparr>ret = Some (fresh_file\<lparr>Contents := ''Not Found''\<rparr>), err = None, logged = []\<rparr> \<and>
   downloadPackageTar (with_status 200 not_found_runtime) plain_gateway
       ''https://cdn.example.com/pkg-1.0.0.tgz'' =
     downloadPackageTar not_found_runtime plain_gateway ''https://cdn.example.com/pkg-1.0.0.tgz''"
proof -
  let ?u = "\<lparr>Scheme = ''https'', Opaque = [], User = None, Host = ''cdn.example.com'',
             Path = ''/pkg-1.0.0.tgz'', RawPath = [], ForceQuery = False, RawQuery = [],
             Fragment = [], RawFragment = []\<rparr>"
  let ?req = "\<lparr>Method = ''GET'', ReqURL = ?u, Header = []\<rparr>"
  let ?resp = "\<lparr>StatusCode = 404, Body = ''Not Found'', BodyErr = None\<rparr>"
  have h1: "http_NewRequest not_found_runtime ''GET'' ''https://cdn.example.com/pkg-1.0.0.tgz'' = Inr ?req"
    by code_simp
  have h2: "http_Do not_found_runtime (addAuthorizationToRequest plain_gateway ?req) = Inr ?resp"
    by code_simp
  have h3: "BodyErr ?resp = None" by simp
  have h4: "ioutil_TempFile not_found_runtime = Inr fresh_file" by code_simp
  have h5: "WriteFailure fresh_file = None" by (simp add: fresh_file_def)
  from download_ignores_status [OF h1 h2 h3 h4 h5, of 200]
  show ?thesis by (simp add: fresh_file_def)
qed

text \<open>
  Without those conditions a delivered response does not make the call succeed: with a
  404 answer and no room for the temporary file the call returns an error and no file,
  and with a 500 answer whose body breaks off it returns an error.
\<close>

theorem download_ignores_status_counterexample:
  "http_Do no_temp_runtime archive_request =
     Inr \<lparr>StatusCode = 404, Body = ''Not Found'', BodyErr = None\<rparr> \<and>
   downloadPackageTar no_temp_runtime plain_gateway ''https://cdn.example.com/pkg-1.0.0.tgz'' =
     \<lparr>ret = None, err = Some (Foreign ''open /tmp/123456.tar: no space left on device''),
      logged = [LogError [] [ZError (Foreign ''open /tmp/123456.tar: no space left on device'')]]\<rparr> \<and>
   http_Do server_error_runtime archive_request =
     Inr \<lparr>StatusCode = 500, Body = ''Internal'', BodyErr = Some (Foreign ''unexpected EOF'')\<rparr> \<and>
   err (downloadPackageTar server_error_runtime plain_gateway
          ''https://cdn.example.com/pkg-1.0.0.tgz'') =
     Some (Foreign ''unexpected EOF'')"
  by (intro conjI; code_simp)

end
